theory Spec2Isabelle
  imports Main "HOL-Library.Multiset" "HOL-Library.Sublist"
begin

section \<open>Masonry layout engine (MasonryGrid.tsx)\<close>

text \<open>
  \<^verbatim>\<open>updateColumns\<close> reads \<^verbatim>\<open>window.innerWidth\<close> (an integer number of CSS pixels) and
  stores the column count with \<^verbatim>\<open>setColumns\<close>. The function below is the value it stores.
\<close>

definition updateColumns :: "int \<Rightarrow> nat" where
  "updateColumns width =
     (if width < 640 then 2
      else if width < 1024 then 3
      else if width < 1280 then 4
      else 5)"

text \<open>
  The component's only state is \<^verbatim>\<open>columns\<close>, initialised by \<^verbatim>\<open>useState(4)\<close>. The mount effect
  calls \<^verbatim>\<open>updateColumns()\<close> once and registers it as the listener of \<^verbatim>\<open>resize\<close>; each event
  carries the viewport width at that moment.
\<close>

datatype grid_event = Mount int | Resize int

definition initial_columns :: nat where
  "initial_columns = 4"

fun grid_step :: "nat \<Rightarrow> grid_event \<Rightarrow> nat" where
  "grid_step columns (Mount width) = updateColumns width"
| "grid_step columns (Resize width) = updateColumns width"

text \<open>
  \<^verbatim>\<open>distributeColumns\<close>: \<^verbatim>\<open>cols\<close> starts as \<^verbatim>\<open>columns\<close> empty arrays and \<^verbatim>\<open>pins.forEach\<close> pushes the
  pin at \<^verbatim>\<open>index\<close> onto \<^verbatim>\<open>cols[index % columns]\<close>. When \<^verbatim>\<open>columns\<close> is 0 the index is
  \<^verbatim>\<open>NaN\<close>, \<^verbatim>\<open>cols[NaN]\<close> is \<^verbatim>\<open>undefined\<close> and \<^verbatim>\<open>push\<close> raises a TypeError; in HOL
  \<open>index mod 0 = index\<close>, which is out of range of the empty \<open>cols\<close> as well, so the
  range test below is that failure.
\<close>

datatype js_error = TypeError

fun forEach_push :: "nat \<Rightarrow> 'a list \<Rightarrow> nat \<Rightarrow> 'a list list \<Rightarrow> js_error + 'a list list" where
  "forEach_push columns [] index cols = Inr cols"
| "forEach_push columns (pin # rest) index cols =
     (let columnIndex = index mod columns in
      if columnIndex < length cols
      then forEach_push columns rest (Suc index) (cols[columnIndex := cols ! columnIndex @ [pin]])
      else Inl TypeError)"

definition distributeColumns :: "nat \<Rightarrow> 'a list \<Rightarrow> js_error + 'a list list" where
  "distributeColumns columns pins = forEach_push columns pins 0 (replicate columns [])"

text \<open>
  Reading the columns back round-robin: the first pin of every column that still has one,
  left to right, then the second pin of each, and so on.
\<close>

definition interleave :: "'a list list \<Rightarrow> 'a list" where
  "interleave cols = concat (transpose cols)"

text \<open>
  The distribution as the specification words it: column \<open>k\<close> holds the pins at the input
  positions \<open>i\<close> with \<open>i mod C = k\<close>, in input order (\<^const>\<open>nths\<close> keeps the elements at
  the positions of a set, in the order of the list).
\<close>

definition spec_columns :: "nat \<Rightarrow> 'a list \<Rightarrow> 'a list list" where
  "spec_columns C pins = map (\<lambda>k. nths pins {i. i mod C = k}) [0..<C]"

definition event_width :: "grid_event \<Rightarrow> int" where
  "event_width e = (case e of Mount w \<Rightarrow> w | Resize w \<Rightarrow> w)"


section \<open>JavaScript strings\<close>

text \<open>
  The strings of the creation form (file names, the tags field, storage paths) are lists of
  8-bit characters, which covers the Latin-1 range; \<^verbatim>\<open>split\<close> and \<^verbatim>\<open>trim\<close> act on them
  character by character. The text that the feed searches is modelled in full further down,
  as lists of UTF-16 code units, because lower-casing depends on the whole Unicode range.
\<close>

text \<open>\<^verbatim>\<open>s.includes(q)\<close>: \<open>q\<close> occurs in \<open>s\<close> at some position.\<close>

fun includes_str :: "'a list \<Rightarrow> 'a list \<Rightarrow> bool" where
  "includes_str [] q = (q = [])"
| "includes_str (c # s) q = (prefix q (c # s) \<or> includes_str s q)"

text \<open>
  \<^verbatim>\<open>s.split(sep)\<close> for a separator of one character: the pieces between the separators, at
  least one piece (the empty string splits into one empty piece).
\<close>

fun split_str :: "char \<Rightarrow> string \<Rightarrow> string list" where
  "split_str sep [] = [[]]"
| "split_str sep (c # s) =
     (if c = sep then [] # split_str sep s
      else (case split_str sep s of [] \<Rightarrow> [[c]] | p # ps \<Rightarrow> (c # p) # ps))"

text \<open>
  \<^verbatim>\<open>trim\<close> removes white space and line terminators at both ends; in the Latin-1 range
  these are TAB, LF, VT, FF, CR, the space and the no-break space U+00A0.
\<close>

definition isWhiteSpace :: "char \<Rightarrow> bool" where
  "isWhiteSpace c = ((of_char c :: nat) \<in> {9, 10, 11, 12, 13, 32, 160})"

definition trim :: "string \<Rightarrow> string" where
  "trim s = rev (dropWhile isWhiteSpace (rev (dropWhile isWhiteSpace s)))"

text \<open>A number in a template literal is printed in decimal.\<close>

fun digits :: "nat \<Rightarrow> string" where
  "digits n =
     (if n < 10 then [char_of (48 + n)]
      else digits (n div 10) @ [char_of (48 + n mod 10)])"

declare digits.simps [simp del]

section \<open>Text of the feed: UTF-16 code units and \<^verbatim>\<open>toLowerCase\<close>\<close>

text \<open>
  A JavaScript string is a sequence of 16-bit code units, here a list of numbers below
  65536; a code point is a number up to 1114111 (U+10FFFF). \<open>ascii\<close> reads an 8-bit
  literal as such a string.
\<close>

type_synonym js_string = "nat list"

definition ascii :: "string \<Rightarrow> js_string" where
  "ascii s = map of_char s"

text \<open>
  \<^verbatim>\<open>StringToCodePoints\<close> (ECMA-262): a leading surrogate (U+D800 to U+DBFF) followed by a
  trailing surrogate (U+DC00 to U+DFFF) is one code point, every other code unit,
  an unpaired surrogate too, is the code point of its own value.
\<close>

definition is_leading :: "nat \<Rightarrow> bool" where
  "is_leading u = (55296 \<le> u \<and> u \<le> 56319)"

definition is_trailing :: "nat \<Rightarrow> bool" where
  "is_trailing u = (56320 \<le> u \<and> u \<le> 57343)"

fun StringToCodePoints :: "js_string \<Rightarrow> nat list" where
  "StringToCodePoints [] = []"
| "StringToCodePoints [u] = [u]"
| "StringToCodePoints (u # v # rest) =
     (if is_leading u \<and> is_trailing v
      then ((u - 55296) * 1024 + (v - 56320) + 65536) # StringToCodePoints rest
      else u # StringToCodePoints (v # rest))"

text \<open>\<^verbatim>\<open>CodePointsToString\<close>: each code point in UTF-16 (\<^verbatim>\<open>UTF16EncodeCodePoint\<close>).\<close>

definition UTF16EncodeCodePoint :: "nat \<Rightarrow> js_string" where
  "UTF16EncodeCodePoint cp =
     (if cp \<le> 65535 then [cp]
      else [(cp - 65536) div 1024 + 55296, (cp - 65536) mod 1024 + 56320])"

definition CodePointsToString :: "nat list \<Rightarrow> js_string" where
  "CodePointsToString cps = concat (map UTF16EncodeCodePoint cps)"

text \<open>
  The tables of the Unicode Character Database that lower-casing reads are not part of the
  program; they are a parameter. \<open>lower_mapping\<close> is the locale-insensitive, unconditional
  lower-case mapping of a code point (the entry of SpecialCasing.txt where there is one,
  as for U+0130, which maps to two code points; otherwise the simple mapping of
  UnicodeData.txt; the code point itself where there is none). \<open>cased\<close> and
  \<open>case_ignorable\<close> are the properties Cased and Case_Ignorable.
\<close>

record unicode_data =
  lower_mapping :: "nat \<Rightarrow> nat list"
  cased :: "nat \<Rightarrow> bool"
  case_ignorable :: "nat \<Rightarrow> bool"

text \<open>
  The one context-sensitive, locale-insensitive mapping is the capital sigma U+03A3 (931):
  it becomes the final sigma U+03C2 (962) under the condition Final_Sigma, that is, when it
  is preceded by a cased letter and then any number of case-ignorable characters, and is not
  followed by any number of case-ignorable characters and then a cased letter.
  \<open>cased_after_ignorable\<close> reads a list outwards from the sigma.
\<close>

fun cased_after_ignorable :: "unicode_data \<Rightarrow> nat list \<Rightarrow> bool" where
  "cased_after_ignorable ud [] = False"
| "cased_after_ignorable ud (c # cs) =
     (cased ud c \<or> (case_ignorable ud c \<and> cased_after_ignorable ud cs))"

definition Final_Sigma :: "unicode_data \<Rightarrow> nat list \<Rightarrow> nat list \<Rightarrow> bool" where
  "Final_Sigma ud passed ahead =
     (cased_after_ignorable ud passed \<and> \<not> cased_after_ignorable ud ahead)"

text \<open>
  \<^verbatim>\<open>toLowercase\<close> of the Unicode Default Case Conversion on a list of code points;
  \<open>passed\<close> holds the code points before the current one, the nearest first, and \<open>ahead\<close>
  those after it.
\<close>

fun lower_points :: "unicode_data \<Rightarrow> nat list \<Rightarrow> nat list \<Rightarrow> nat list" where
  "lower_points ud passed [] = []"
| "lower_points ud passed (c # ahead) =
     (if c = 931 \<and> Final_Sigma ud passed ahead then [962] else lower_mapping ud c)
       @ lower_points ud (c # passed) ahead"

text \<open>\<^verbatim>\<open>String.prototype.toLowerCase\<close>.\<close>

definition toLowerCase :: "unicode_data \<Rightarrow> js_string \<Rightarrow> js_string" where
  "toLowerCase ud s = CodePointsToString (lower_points ud [] (StringToCodePoints s))"

section \<open>Data model (the \<^verbatim>\<open>Pin\<close> interface of Home.tsx, PinCard, MasonryGrid)\<close>

text \<open>
  An optional or nullable field is an \<^typ>\<open>'a option\<close>: \<^verbatim>\<open>undefined\<close> and \<^verbatim>\<open>null\<close> are both
  \<^const>\<open>None\<close>, the code treats them alike (\<^verbatim>\<open>?.\<close>, \<^verbatim>\<open>||\<close>). The field \<^verbatim>\<open>id\<close> is
  \<open>id_pin\<close> here. The fields that the filter of the feed reads are \<^typ>\<open>js_string\<close>s.
\<close>

record profile =
  username :: js_string
  display_name :: "js_string option"
  avatar_url :: "string option"

record pin =
  id_pin :: string
  title :: js_string
  description :: "js_string option"
  image_url :: string
  tags :: "js_string list option"
  user_id :: string
  created_at :: string
  profiles :: "profile option"

text \<open>Of the session's \<^verbatim>\<open>user\<close> the code reads \<^verbatim>\<open>user.id\<close> only; a user is that id.\<close>

type_synonym user = string

text \<open>
  A gateway call is a promise: it resolves with a value or rejects with an error. An error
  carries a \<^verbatim>\<open>message\<close>, which may be missing.
\<close>

datatype gw_error = GwError (message: "string option")

datatype 'a outcome = Resolved 'a | Rejected gw_error

datatype variant = Default | Destructive

text \<open>
  What a handler does to the world outside its component, in the order it does it: gateway
  requests, notifications, the callbacks of the parent, navigation, the file read.
\<close>

record pin_insert =
  ins_user_id :: string
  ins_title :: string
  ins_description :: "string option"
  ins_image_url :: string
  ins_tags :: "string list"

record js_file =
  file_name :: string
  file_size :: nat
  file_type :: string

datatype effect =
    SelectPins
  | SelectProfile string
  | SelectLikes string
  | SelectSaves string
  | DeleteLike string string
  | InsertLike string string
  | DeleteSave string string
  | InsertSave string string
  | Upload string js_file
  | GetPublicUrl string
  | InsertPin pin_insert
  | Toast string string variant
  | ConsoleError
  | OnLike string bool
  | OnSave string bool
  | Navigate string
  | ReadAsDataURL js_file

definition is_gateway :: "effect \<Rightarrow> bool" where
  "is_gateway e =
     (case e of
        Toast _ _ _ \<Rightarrow> False | ConsoleError \<Rightarrow> False | OnLike _ _ \<Rightarrow> False
      | OnSave _ _ \<Rightarrow> False | Navigate _ \<Rightarrow> False | ReadAsDataURL _ \<Rightarrow> False
      | _ \<Rightarrow> True)"

section \<open>Feed screen (Home.tsx)\<close>

record home_state =
  pins :: "pin list"
  filteredPins :: "pin list"
  likedPins :: "string set"
  savedPins :: "string set"
  loading :: bool
  searchQuery :: js_string

definition home_initial :: home_state where
  "home_initial =
     \<lparr>pins = [], filteredPins = [], likedPins = {}, savedPins = {}, loading = True,
      searchQuery = []\<rparr>"

text \<open>
  The predicate of \<^verbatim>\<open>pins.filter\<close> in the filter effect. A disjunct whose optional chain
  ends in \<^verbatim>\<open>undefined\<close> is falsy.
\<close>

definition pin_matches :: "unicode_data \<Rightarrow> js_string \<Rightarrow> pin \<Rightarrow> bool" where
  "pin_matches ud query pin =
     (includes_str (toLowerCase ud (title pin)) (toLowerCase ud query) \<or>
      (case description pin of None \<Rightarrow> False
       | Some d \<Rightarrow> includes_str (toLowerCase ud d) (toLowerCase ud query)) \<or>
      (case tags pin of None \<Rightarrow> False
       | Some ts \<Rightarrow>
           list_ex (\<lambda>tag. includes_str (toLowerCase ud tag) (toLowerCase ud query)) ts) \<or>
      (case profiles pin of None \<Rightarrow> False
       | Some pr \<Rightarrow> includes_str (toLowerCase ud (username pr)) (toLowerCase ud query)) \<or>
      (case profiles pin of None \<Rightarrow> False
       | Some pr \<Rightarrow>
           (case display_name pr of None \<Rightarrow> False
            | Some d \<Rightarrow> includes_str (toLowerCase ud d) (toLowerCase ud query))))"

definition filter_effect :: "unicode_data \<Rightarrow> home_state \<Rightarrow> home_state" where
  "filter_effect ud s =
     (if searchQuery s = [] then s\<lparr>filteredPins := pins s\<rparr>
      else s\<lparr>filteredPins := filter (pin_matches ud (searchQuery s)) (pins s)\<rparr>)"

text \<open>
  The gateway as the feed sees it: the answer to the select of all pins (\<^verbatim>\<open>data\<close> and
  \<^verbatim>\<open>error\<close>), the answer to the profile lookup of a user id (\<^verbatim>\<open>maybeSingle\<close>: a row or
  none), and the pin ids of the likes and saves selects (\<^verbatim>\<open>data\<close>, or none).
  \<open>arrival_order\<close> is the order in which the answers reach the two functions of the mount
  effect while both wait: \<^const>\<open>True\<close> where the next answer is one \<^verbatim>\<open>fetchPins\<close> waits
  for, \<^const>\<open>False\<close> where it is one \<^verbatim>\<open>fetchUserInteractions\<close> waits for.
\<close>

record home_gateway =
  select_pins :: "(pin list option \<times> gw_error option) outcome"
  select_profile :: "string \<Rightarrow> profile option outcome"
  select_likes :: "string \<Rightarrow> string list option outcome"
  select_saves :: "string \<Rightarrow> string list option outcome"
  arrival_order :: "bool list"

definition load_failed :: effect where
  "load_failed = Toast ''Error'' ''Failed to load pins'' Destructive"

text \<open>
  \<^verbatim>\<open>Promise.all\<close> over the mapped rows: every lookup is issued; the result is the list of
  values when all resolve and the first rejection (in input order, as a model) otherwise.
\<close>

fun promise_all :: "'a outcome list \<Rightarrow> 'a list outcome" where
  "promise_all [] = Resolved []"
| "promise_all (Rejected e # rest) = Rejected e"
| "promise_all (Resolved v # rest) =
     (case promise_all rest of Rejected e \<Rightarrow> Rejected e | Resolved vs \<Rightarrow> Resolved (v # vs))"

text \<open>
  An \<^verbatim>\<open>async\<close> function runs up to its first \<^verbatim>\<open>await\<close> when it is called and goes on, one
  stretch at a time, each time an awaited answer arrives. The model of such a function
  gives the state after all of it, the effects of the first stretch, and the effects of
  each later stretch in order.

  \<^verbatim>\<open>fetchPins\<close>: the select is issued at once; when it is answered the profile lookups are
  issued together (or the failure is notified); when they are answered the pins are stored
  (or the failure is notified).
\<close>

definition fetchPins ::
  "home_gateway \<Rightarrow> home_state \<Rightarrow> home_state \<times> effect list \<times> effect list list" where
  "fetchPins gw s =
     (case select_pins gw of
        Rejected e \<Rightarrow> (s\<lparr>loading := False\<rparr>, [SelectPins], [[load_failed]])
      | Resolved (pinsData, pinsError) \<Rightarrow>
          (case pinsError of
             Some e \<Rightarrow> (s\<lparr>loading := False\<rparr>, [SelectPins], [[load_failed]])
           | None \<Rightarrow>
               (let rows = (case pinsData of None \<Rightarrow> [] | Some d \<Rightarrow> d);
                    lookups = map (\<lambda>pin. SelectProfile (user_id pin)) rows
                in case promise_all (map (\<lambda>pin. select_profile gw (user_id pin)) rows) of
                     Rejected e \<Rightarrow>
                       (s\<lparr>loading := False\<rparr>, [SelectPins], [lookups, [load_failed]])
                   | Resolved found \<Rightarrow>
                       (s\<lparr>pins := map2 (\<lambda>pin profile. pin\<lparr>profiles := profile\<rparr>) rows found,
                          loading := False\<rparr>,
                        [SelectPins], [lookups, []]))))"

text \<open>
  \<^verbatim>\<open>fetchUserInteractions\<close>: the likes select is issued at once; when it is answered the
  saves select is issued (or the failure is logged); when that is answered the saved ids
  are stored (or the failure is logged).
\<close>

definition fetchUserInteractions ::
  "user option \<Rightarrow> home_gateway \<Rightarrow> home_state \<Rightarrow> home_state \<times> effect list \<times> effect list list" where
  "fetchUserInteractions user gw s =
     (case user of
        None \<Rightarrow> (s, [], [])
      | Some u \<Rightarrow>
          (case select_likes gw u of
             Rejected e \<Rightarrow> (s, [SelectLikes u], [[ConsoleError]])
           | Resolved likes \<Rightarrow>
               (let s1 = (case likes of None \<Rightarrow> s | Some ids \<Rightarrow> s\<lparr>likedPins := set ids\<rparr>)
                in case select_saves gw u of
                     Rejected e \<Rightarrow> (s1, [SelectLikes u], [[SelectSaves u], [ConsoleError]])
                   | Resolved saves \<Rightarrow>
                       ((case saves of None \<Rightarrow> s1 | Some ids \<Rightarrow> s1\<lparr>savedPins := set ids\<rparr>),
                        [SelectLikes u], [[SelectSaves u], []]))))"

text \<open>
  Two functions that wait at the same time go on in the order of the arriving answers:
  the later stretches of both, each list in its own order, interleaved as the arrival
  order says.
\<close>

fun interleaved :: "bool list \<Rightarrow> 'a list \<Rightarrow> 'a list \<Rightarrow> 'a list" where
  "interleaved order [] ys = ys"
| "interleaved order xs [] = xs"
| "interleaved [] xs ys = xs @ ys"
| "interleaved (first # order) (x # xs) (y # ys) =
     (if first then x # interleaved order xs (y # ys) else y # interleaved order (x # xs) ys)"

text \<open>
  The effect of \<^verbatim>\<open>[user]\<close>: \<^verbatim>\<open>fetchPins()\<close> always, \<^verbatim>\<open>fetchUserInteractions()\<close> under
  \<^verbatim>\<open>if (user)\<close>. Both calls return at their first \<^verbatim>\<open>await\<close>, so with a session the select
  of the pins and the select of the likes are issued first, in this order, and the rest
  follows the arriving answers. The two functions write different fields of the state, so
  the state after both does not depend on that order.
\<close>

definition mount_effect ::
  "user option \<Rightarrow> home_gateway \<Rightarrow> home_state \<Rightarrow> home_state \<times> effect list" where
  "mount_effect user gw s =
     (let (s1, start1, later1) = fetchPins gw s
      in case user of
           None \<Rightarrow> (s1, start1 @ concat later1)
         | Some u \<Rightarrow>
             (let (s2, start2, later2) = fetchUserInteractions user gw s1
              in (s2, start1 @ start2 @ concat (interleaved (arrival_order gw) later1 later2))))"

text \<open>The callbacks the feed hands to the cards. None of them calls the gateway.\<close>

definition Home_handleLike :: "string \<Rightarrow> bool \<Rightarrow> home_state \<Rightarrow> home_state \<times> effect list" where
  "Home_handleLike pinId liked s =
     (s\<lparr>likedPins := (if liked then insert pinId (likedPins s) else likedPins s - {pinId})\<rparr>, [])"

definition Home_handleSave :: "string \<Rightarrow> bool \<Rightarrow> home_state \<Rightarrow> home_state \<times> effect list" where
  "Home_handleSave pinId saved s =
     (s\<lparr>savedPins := (if saved then insert pinId (savedPins s) else savedPins s - {pinId})\<rparr>, [])"

definition Home_handleDelete :: "string \<Rightarrow> home_state \<Rightarrow> home_state \<times> effect list" where
  "Home_handleDelete pinId s = (s\<lparr>pins := filter (\<lambda>pin. id_pin pin \<noteq> pinId) (pins s)\<rparr>, [])"

section \<open>Pin card (PinCard)\<close>

record card_state =
  isLiked :: bool
  isSaved :: bool
  imageLoaded :: bool

text \<open>
  \<^verbatim>\<open>handleLike\<close> and \<^verbatim>\<open>handleSave\<close> of the card. The awaited query always resolves: a
  request that fails (network, policy, constraint) resolves with the failure in the
  \<^verbatim>\<open>error\<close> of its result, and this code does not read the result. \<open>response\<close> is that
  \<^verbatim>\<open>error\<close>. Nothing in the \<^verbatim>\<open>try\<close> block throws, so the \<^verbatim>\<open>catch\<close> branch has no way in
  and no counterpart here.
\<close>

definition PinCard_handleLike ::
  "user option \<Rightarrow> gw_error option \<Rightarrow> pin \<Rightarrow> card_state \<Rightarrow> card_state \<times> effect list" where
  "PinCard_handleLike user response pin st =
     (case user of
        None \<Rightarrow> (st, [])
      | Some u \<Rightarrow>
          (let request = (if isLiked st then DeleteLike u (id_pin pin) else InsertLike u (id_pin pin))
           in (st\<lparr>isLiked := \<not> isLiked st\<rparr>, [request, OnLike (id_pin pin) (\<not> isLiked st)])))"

definition PinCard_handleSave ::
  "user option \<Rightarrow> gw_error option \<Rightarrow> pin \<Rightarrow> card_state \<Rightarrow> card_state \<times> effect list" where
  "PinCard_handleSave user response pin st =
     (case user of
        None \<Rightarrow> (st, [])
      | Some u \<Rightarrow>
          (let request = (if isSaved st then DeleteSave u (id_pin pin) else InsertSave u (id_pin pin))
           in (st\<lparr>isSaved := \<not> isSaved st\<rparr>, [request, OnSave (id_pin pin) (\<not> isSaved st)])))"

section \<open>Pin creation screen (CreatePin)\<close>

record form_data =
  form_title :: string
  form_description :: string
  form_tags :: string

record create_state =
  submitting :: bool
  imageFile :: "js_file option"
  imagePreview :: string
  formData :: form_data

text \<open>
  \<^verbatim>\<open>handleImageUpload\<close>: the argument is \<^verbatim>\<open>e.target.files?.[0]\<close>. A file that passes both
  tests is stored and a \<^verbatim>\<open>FileReader\<close> is started on it; \<open>reader_onload\<close> is the reader's
  \<^verbatim>\<open>onload\<close> callback.
\<close>

definition handleImageUpload :: "js_file option \<Rightarrow> create_state \<Rightarrow> create_state \<times> effect list" where
  "handleImageUpload selected st =
     (case selected of
        None \<Rightarrow> (st, [])
      | Some picked \<Rightarrow>
          if file_size picked > 10 * 1024 * 1024
          then (st, [Toast ''File too large'' ''Please choose an image smaller than 10MB'' Destructive])
          else if \<not> prefix ''image/'' (file_type picked)
          then (st, [Toast ''Invalid file type'' ''Please choose an image file'' Destructive])
          else (st\<lparr>imageFile := Some picked\<rparr>, [ReadAsDataURL picked]))"

definition reader_onload :: "string \<Rightarrow> create_state \<Rightarrow> create_state" where
  "reader_onload result st = st\<lparr>imagePreview := result\<rparr>"

definition removeImage :: "create_state \<Rightarrow> create_state" where
  "removeImage st = st\<lparr>imageFile := None, imagePreview := []\<rparr>"

text \<open>The tag parsing of \<^verbatim>\<open>handleSubmit\<close>.\<close>

definition parseTags :: "string \<Rightarrow> string list" where
  "parseTags s = filter (\<lambda>tag. length tag > 0) (map trim (split_str CHR '','' s))"

text \<open>
  The gateway as the creation screen sees it: the upload resolves with its \<^verbatim>\<open>error\<close> (or
  none), \<^verbatim>\<open>getPublicUrl\<close> returns the URL, the insert resolves with its \<^verbatim>\<open>error\<close> (or none);
  each may also throw.
\<close>

record create_gateway =
  upload :: "string \<Rightarrow> js_file \<Rightarrow> gw_error option outcome"
  getPublicUrl :: "string \<Rightarrow> string outcome"
  insert_pin :: "pin_insert \<Rightarrow> gw_error option outcome"

definition pin_created :: effect where
  "pin_created = Toast ''Pin created!'' ''Your pin has been shared successfully.'' Default"

text \<open>
  The storage path \<^verbatim>\<open>`${user.id}/${Date.now()}.${fileExt}`\<close>, where \<^verbatim>\<open>fileExt\<close> is the last
  piece of the file name split at the dots, and the row handed to the insert.
\<close>

definition fileName :: "user \<Rightarrow> nat \<Rightarrow> js_file \<Rightarrow> string" where
  "fileName u now img =
     (let fileExt = last (split_str CHR ''.'' (file_name img))
      in u @ ''/'' @ digits now @ ''.'' @ fileExt)"

definition pin_row :: "user \<Rightarrow> form_data \<Rightarrow> string \<Rightarrow> pin_insert" where
  "pin_row u form publicUrl =
     \<lparr>ins_user_id = u, ins_title = form_title form,
      ins_description =
        (if form_description form = [] then None else Some (form_description form)),
      ins_image_url = publicUrl, ins_tags = parseTags (form_tags form)\<rparr>"

text \<open>
  The \<^verbatim>\<open>try\<close> block of \<^verbatim>\<open>handleSubmit\<close>: what it did, and the error it threw, if any.
  \<^verbatim>\<open>formData.description || null\<close> stores an empty description as \<^verbatim>\<open>null\<close>.
\<close>

definition submit_try ::
  "user \<Rightarrow> js_file \<Rightarrow> form_data \<Rightarrow> nat \<Rightarrow> create_gateway \<Rightarrow> effect list \<times> gw_error option" where
  "submit_try u img form now gw =
     (let path = fileName u now img
      in case upload gw path img of
           Rejected e \<Rightarrow> ([Upload path img], Some e)
         | Resolved (Some uploadError) \<Rightarrow> ([Upload path img], Some uploadError)
         | Resolved None \<Rightarrow>
             (case getPublicUrl gw path of
                Rejected e \<Rightarrow> ([Upload path img, GetPublicUrl path], Some e)
              | Resolved publicUrl \<Rightarrow>
                  (let row = pin_row u form publicUrl;
                       issued = [Upload path img, GetPublicUrl path, InsertPin row]
                   in case insert_pin gw row of
                        Rejected e \<Rightarrow> (issued, Some e)
                      | Resolved (Some pinError) \<Rightarrow> (issued, Some pinError)
                      | Resolved None \<Rightarrow> (issued @ [pin_created, Navigate ''/''], None))))"

text \<open>\<^verbatim>\<open>error.message || "Something went wrong"\<close>: a missing or empty message is falsy.\<close>

definition surfaced :: "gw_error \<Rightarrow> string" where
  "surfaced e =
     (case message e of
        None \<Rightarrow> ''Something went wrong''
      | Some m \<Rightarrow> if m = [] then ''Something went wrong'' else m)"

text \<open>
  \<^verbatim>\<open>handleSubmit\<close>: the guard, \<^verbatim>\<open>setLoading(true)\<close>, the \<^verbatim>\<open>try\<close> block, the \<^verbatim>\<open>catch\<close> with
  its notification, and \<^verbatim>\<open>setLoading(false)\<close> in \<^verbatim>\<open>finally\<close>. The state field \<^verbatim>\<open>loading\<close> of
  this screen is \<open>submitting\<close> here.
\<close>

definition handleSubmit ::
  "user option \<Rightarrow> nat \<Rightarrow> create_gateway \<Rightarrow> create_state \<Rightarrow> create_state \<times> effect list" where
  "handleSubmit user now gw st =
     (case user of
        None \<Rightarrow> (st, [])
      | Some u \<Rightarrow>
          (case imageFile st of
             None \<Rightarrow> (st, [])
           | Some img \<Rightarrow>
               (case submit_try u img (formData st) now gw of
                  (es, None) \<Rightarrow> (st\<lparr>submitting := False\<rparr>, es)
                | (es, Some e) \<Rightarrow>
                    (st\<lparr>submitting := False\<rparr>,
                     es @ [Toast ''Error creating pin'' (surfaced e) Destructive]))))"

section \<open>The properties, in the words of the specification\<close>



text \<open>
  Splitting on commas, as a property of the pieces: there is at least one piece, no piece
  holds a comma, and the pieces joined by commas are the input.
\<close>

fun join_str :: "char \<Rightarrow> string list \<Rightarrow> string" where
  "join_str sep [] = []"
| "join_str sep [p] = p"
| "join_str sep (p # q # ps) = p @ sep # join_str sep (q # ps)"

definition comma_pieces :: "string \<Rightarrow> string list \<Rightarrow> bool" where
  "comma_pieces s ps = (ps \<noteq> [] \<and> CHR '','' \<notin> set (concat ps) \<and> join_str CHR '','' ps = s)"

text \<open>
  Trimming, as a property of the result: the piece is the result between two runs of white
  space, and the result neither starts nor ends with white space.
\<close>

definition trimmed_of :: "string \<Rightarrow> string \<Rightarrow> bool" where
  "trimmed_of p t =
     (\<exists>a b. p = a @ t @ b \<and> list_all isWhiteSpace a \<and> list_all isWhiteSpace b \<and>
        (t = [] \<or> (\<not> isWhiteSpace (hd t) \<and> \<not> isWhiteSpace (last t))))"

text \<open>The error a gateway call ends with, if any: the one it throws or the one it returns.\<close>

definition call_error :: "gw_error option outcome \<Rightarrow> gw_error option" where
  "call_error r = (case r of Rejected e \<Rightarrow> Some e | Resolved x \<Rightarrow> x)"

definition error_toast :: "gw_error \<Rightarrow> effect" where
  "error_toast e = Toast ''Error creating pin'' (surfaced e) Destructive"

text \<open>
  The Unicode data of the letters A to Z, a to z, of the Greek letters U+0391 to U+03A9
  (913 to 937; 930 is unassigned) and U+03B1 to U+03C9 (945 to 969), and of the capital I
  with dot above U+0130 (304): a capital letter maps to the letter 32 places up, U+0130 to
  the two code points i and combining dot above (105, 775); these letters are cased; of the
  case-ignorable characters the apostrophe, the full stop, the colon, the circumflex, the
  grave accent and the combining dot above are listed. The examples use no other character.
\<close>

definition letters_data :: unicode_data where
  "letters_data =
     \<lparr>lower_mapping =
        (\<lambda>c. if (65 \<le> c \<and> c \<le> 90) \<or> (913 \<le> c \<and> c \<le> 937 \<and> c \<noteq> 930) then [c + 32]
             else if c = 304 then [105, 775] else [c]),
      cased =
        (\<lambda>c. (65 \<le> c \<and> c \<le> 90) \<or> (97 \<le> c \<and> c \<le> 122) \<or> c = 304 \<or>
             (913 \<le> c \<and> c \<le> 937 \<and> c \<noteq> 930) \<or> (945 \<le> c \<and> c \<le> 969)),
      case_ignorable = (\<lambda>c. c \<in> {39, 46, 58, 94, 96, 775})\<rparr>"

text \<open>A pin and a feed to run the definitions on.\<close>

definition example_pin :: pin where
  "example_pin =
     \<lparr>id_pin = ''p1'', title = ascii ''Sunset Beach'', description = None, image_url = ''u'',
      tags = Some [ascii ''Travel''], user_id = ''u1'', created_at = ''t'',
      profiles = Some \<lparr>username = ascii ''ann'', display_name = Some (ascii ''Ann Lee''),
                        avatar_url = None\<rparr>\<rparr>"

definition other_pin :: pin where
  "other_pin =
     \<lparr>id_pin = ''p2'', title = ascii ''Mountain'', description = Some (ascii ''A cold morning''),
      image_url = ''v'', tags = None, user_id = ''u2'', created_at = ''t'', profiles = None\<rparr>"

definition example_feed :: "js_string \<Rightarrow> home_state" where
  "example_feed q = home_initial\<lparr>pins := [example_pin, other_pin], searchQuery := q\<rparr>"




definition example_rows :: "pin list" where
  "example_rows = [example_pin\<lparr>profiles := None\<rparr>, other_pin]"

definition example_lookup :: "string \<Rightarrow> profile option" where
  "example_lookup uid =
     (if uid = ''u1''
      then Some \<lparr>username = ascii ''ann'', display_name = Some (ascii ''Ann Lee''),
                 avatar_url = None\<rparr>
      else None)"

definition example_home_gateway :: home_gateway where
  "example_home_gateway =
     \<lparr>select_pins = Resolved (Some example_rows, None),
      select_profile = (\<lambda>uid. Resolved (example_lookup uid)),
      select_likes = (\<lambda>uid. Resolved (Some [''p1''])),
      select_saves = (\<lambda>uid. Resolved (Some [''p2''])),
      arrival_order = [False, True]\<rparr>"

definition example_card :: card_state where
  "example_card = \<lparr>isLiked = False, isSaved = True, imageLoaded = True\<rparr>"

definition network_down :: "gw_error option" where
  "network_down = Some (GwError (Some ''Failed to fetch''))"

definition small_image :: js_file where
  "small_image = \<lparr>file_name = ''cat.png'', file_size = 2048, file_type = ''image/png''\<rparr>"

definition big_image :: js_file where
  "big_image =
     \<lparr>file_name = ''huge.png'', file_size = 11 * 1024 * 1024, file_type = ''image/png''\<rparr>"

definition example_create_state :: create_state where
  "example_create_state =
     \<lparr>submitting = False, imageFile = Some small_image, imagePreview = [],
      formData = \<lparr>form_title = ''Dinner'', form_description = [],
                  form_tags = ''food, , recipe''\<rparr>\<rparr>"

definition ok_gateway :: create_gateway where
  "ok_gateway =
     \<lparr>upload = (\<lambda>path img. Resolved None),
      getPublicUrl = (\<lambda>path. Resolved (''https://cdn/'' @ path)),
      insert_pin = (\<lambda>row. Resolved None)\<rparr>"

definition policy_error :: gw_error where
  "policy_error = GwError (Some ''violates row-level security policy'')"

definition refusing_gateway :: create_gateway where
  "refusing_gateway = ok_gateway\<lparr>insert_pin := (\<lambda>row. Resolved (Some policy_error))\<rparr>"

section \<open>The loop of \<open>distributeColumns\<close>\<close>

lemma forEach_push_nths:
  "0 < C \<Longrightarrow> length cols = C \<Longrightarrow>
   forEach_push C ps index cols =
     Inr (map (\<lambda>k. cols ! k @ nths ps {i. (index + i) mod C = k}) [0..<C])"
proof (induction ps arbitrary: index cols)
  case Nil
  then show ?case using map_nth [of cols] by simp
next
  case (Cons p rest)
  let ?c = "index mod C"
  let ?cols = "cols[?c := cols ! ?c @ [p]]"
  have c: "?c < length cols" using Cons.prems by simp
  have len: "length ?cols = C" using Cons.prems by simp
  have "forEach_push C (p # rest) index cols = forEach_push C rest (Suc index) ?cols"
    using c by (simp add: Let_def)
  also have "\<dots> = Inr (map (\<lambda>k. ?cols ! k @ nths rest {i. (Suc index + i) mod C = k}) [0..<C])"
    using Cons.IH [OF Cons.prems(1) len] .
  also have "map (\<lambda>k. ?cols ! k @ nths rest {i. (Suc index + i) mod C = k}) [0..<C]
           = map (\<lambda>k. cols ! k @ nths (p # rest) {i. (index + i) mod C = k}) [0..<C]"
    using Cons.prems by (auto simp: nths_Cons nth_list_update)
  finally show ?case .
qed

lemma distributeColumns_spec:
  "0 < C \<Longrightarrow> distributeColumns C ps = Inr (spec_columns C ps)"
  by (simp add: distributeColumns_def spec_columns_def forEach_push_nths)

lemma updateColumns_range: "updateColumns w \<in> {2, 3, 4, 5}"
  by (simp add: updateColumns_def)

subsection \<open>Every pin is placed once\<close>

lemma concat_update_snoc:
  assumes "k < length cols"
  shows "mset (concat (cols[k := cols ! k @ [p]])) = mset (concat cols) + {#p#}"
proof -
  have "cols = take k cols @ cols ! k # drop (Suc k) cols"
    using assms by (rule id_take_nth_drop)
  then have "mset (concat cols)
      = mset (concat (take k cols)) + mset (cols ! k) + mset (concat (drop (Suc k) cols))"
    by (metis concat.simps(2) concat_append mset_append add.assoc)
  moreover have "mset (concat (cols[k := cols ! k @ [p]]))
      = mset (concat (take k cols)) + mset (cols ! k @ [p]) + mset (concat (drop (Suc k) cols))"
    using assms by (simp add: upd_conv_take_nth_drop)
  ultimately show ?thesis by simp
qed

lemma forEach_push_mset:
  "forEach_push C ps index cols = Inr res \<Longrightarrow> mset (concat res) = mset (concat cols) + mset ps"
proof (induction ps arbitrary: index cols)
  case Nil
  then show ?case by simp
next
  case (Cons p rest)
  let ?c = "index mod C"
  from Cons.prems have c: "?c < length cols"
    by (simp add: Let_def split: if_splits)
  with Cons.prems have "forEach_push C rest (Suc index) (cols[?c := cols ! ?c @ [p]]) = Inr res"
    by (simp add: Let_def)
  from Cons.IH [OF this] show ?case
    using concat_update_snoc [OF c, of p] by simp
qed

lemma distributeColumns_mset:
  "distributeColumns C ps = Inr res \<Longrightarrow> mset (concat res) = mset ps"
  using forEach_push_mset [of C ps 0 "replicate C []" res]
  by (simp add: distributeColumns_def)

subsection \<open>Reading the columns back\<close>

lemma nths_cong_length:
  "(\<And>i. i < length xs \<Longrightarrow> i \<in> A \<longleftrightarrow> i \<in> B) \<Longrightarrow> nths xs A = nths xs B"
  unfolding nths_def
  by (rule arg_cong [where f = "map fst"], rule filter_cong) (auto simp: set_zip)

lemma nths_one_position: "nths xs {k} = (if k < length xs then [xs ! k] else [])"
  by (induction xs arbitrary: k) (auto simp: nths_Cons nth_Cons split: nat.splits)

lemma nths_mod_short:
  assumes "length xs \<le> C" and "k < C"
  shows "nths xs {i. i mod C = k} = (if k < length xs then [xs ! k] else [])"
proof -
  have "nths xs {i. i mod C = k} = nths xs {k}"
    using assms by (intro nths_cong_length) auto
  then show ?thesis by (simp add: nths_one_position)
qed

lemma heads_replicate_Nil: "[h. (h # t) \<leftarrow> replicate m []] = []"
  by (induction m) auto

lemma tails_replicate_Nil: "[t. (h # t) \<leftarrow> replicate m []] = []"
  by (induction m) auto

lemma heads_map2:
  "length xs = length yss \<Longrightarrow> [h. (h # t) \<leftarrow> map2 (#) xs yss @ replicate m []] = xs"
  by (induction xs yss rule: list_induct2) (simp_all add: heads_replicate_Nil del: map_replicate)

lemma tails_map2:
  "length xs = length yss \<Longrightarrow> [t. (h # t) \<leftarrow> map2 (#) xs yss @ replicate m []] = yss"
  by (induction xs yss rule: list_induct2) (simp_all add: tails_replicate_Nil del: map_replicate)

lemma transpose_map2_Cons:
  assumes "length xs = length yss" and "xs \<noteq> []"
  shows "transpose (map2 (#) xs yss @ replicate m []) = xs # transpose yss"
proof -
  from assms obtain a as ys yss' where xs: "xs = a # as" and yss: "yss = ys # yss'" and
    len: "length as = length yss'"
    by (cases xs; cases yss) auto
  show ?thesis
    unfolding xs yss using heads_map2 [OF len, of m] tails_map2 [OF len, of m] by simp
qed

lemma transpose_replicate_Nil: "transpose (replicate n []) = []"
  by (simp add: transpose_empty)

lemma spec_columns_chunk:
  assumes "length xs = C"
  shows "spec_columns C (xs @ ys) = map2 (#) xs (spec_columns C ys)"
proof (rule nth_equalityI)
  show "length (spec_columns C (xs @ ys)) = length (map2 (#) xs (spec_columns C ys))"
    using assms by (simp add: spec_columns_def)
next
  fix k assume "k < length (spec_columns C (xs @ ys))"
  then have k: "k < C" by (simp add: spec_columns_def)
  have "nths (xs @ ys) {i. i mod C = k} = [xs ! k] @ nths ys {j. j mod C = k}"
    using assms k nths_mod_short [of xs C k] by (simp add: nths_append)
  then show "spec_columns C (xs @ ys) ! k = map2 (#) xs (spec_columns C ys) ! k"
    using assms k by (simp add: spec_columns_def)
qed

lemma spec_columns_short:
  assumes "length xs \<le> C"
  shows "spec_columns C xs = map2 (#) xs (replicate (length xs) []) @ replicate (C - length xs) []"
proof (rule nth_equalityI)
  show "length (spec_columns C xs)
      = length (map2 (#) xs (replicate (length xs) []) @ replicate (C - length xs) [])"
    using assms by (simp add: spec_columns_def)
next
  fix k assume "k < length (spec_columns C xs)"
  then have k: "k < C" by (simp add: spec_columns_def)
  show "spec_columns C xs ! k
      = (map2 (#) xs (replicate (length xs) []) @ replicate (C - length xs) []) ! k"
    using assms k nths_mod_short [OF assms k] by (simp add: spec_columns_def nth_append)
qed

lemma interleave_spec_columns: "0 < C \<Longrightarrow> interleave (spec_columns C ps) = ps"
proof (induction ps rule: length_induct)
  case (1 ps)
  show ?case
  proof (cases "length ps \<le> C")
    case True
    show ?thesis
    proof (cases "ps = []")
      case True
      then show ?thesis
        by (simp add: spec_columns_def interleave_def map_replicate_const transpose_replicate_Nil)
    next
      case False
      have "transpose (spec_columns C ps) = ps # transpose (replicate (length ps) [])"
        unfolding spec_columns_short [OF True] using False by (intro transpose_map2_Cons) auto
      then show ?thesis by (simp add: interleave_def transpose_replicate_Nil)
    qed
  next
    case False
    define xs where "xs = take C ps"
    define ys where "ys = drop C ps"
    have p: "ps = xs @ ys" and lx: "length xs = C" using False by (auto simp: xs_def ys_def)
    have ne: "xs \<noteq> []" using lx 1 by auto
    have "length ys < length ps" using p lx 1 by simp
    then have IH: "interleave (spec_columns C ys) = ys" using 1 by blast
    have "transpose (spec_columns C ps) = xs # transpose (spec_columns C ys)"
      unfolding p spec_columns_chunk [OF lx] using transpose_map2_Cons [of xs "spec_columns C ys" 0] lx ne
      by (simp add: spec_columns_def)
    then show ?thesis using IH p by (simp add: interleave_def)
  qed
qed

lemma spec_columns_position:
  "0 < C \<Longrightarrow> i < length ps \<Longrightarrow> spec_columns C ps ! (i mod C) ! (i div C) = ps ! i"
proof (induction ps arbitrary: i rule: length_induct)
  case (1 ps)
  show ?case
  proof (cases "length ps \<le> C")
    case True
    with "1.prems" have i: "i < C" by simp
    then have "spec_columns C ps ! i = [ps ! i]"
      using "1.prems" True nths_mod_short [of ps C i] by (simp add: spec_columns_def)
    with i show ?thesis by simp
  next
    case False
    define xs where "xs = take C ps"
    define ys where "ys = drop C ps"
    have p: "ps = xs @ ys" and lx: "length xs = C" using False by (auto simp: xs_def ys_def)
    have cols: "spec_columns C ps = map2 (#) xs (spec_columns C ys)"
      unfolding p using lx by (rule spec_columns_chunk)
    have k: "i mod C < C" using "1.prems" by simp
    have col: "spec_columns C ps ! (i mod C) = xs ! (i mod C) # spec_columns C ys ! (i mod C)"
      unfolding cols using k lx by (simp add: spec_columns_def)
    show ?thesis
    proof (cases "i < C")
      case True
      then show ?thesis using col p lx by (simp add: nth_append)
    next
      case False
      then have ge: "C \<le> i" by simp
      then have m: "i mod C = (i - C) mod C" and d: "i div C = Suc ((i - C) div C)"
        using "1.prems"(1) by (simp_all add: le_mod_geq le_div_geq)
      have "i - C < length ys" using "1.prems" p lx ge by simp
      moreover have "length ys < length ps" using p lx "1.prems" by simp
      ultimately have "spec_columns C ys ! ((i - C) mod C) ! ((i - C) div C) = ys ! (i - C)"
        using "1.IH" "1.prems"(1) by blast
      then have "spec_columns C ps ! (i mod C) ! (i div C) = ys ! (i - C)"
        unfolding col d m [symmetric] by simp
      also have "\<dots> = ps ! i"
        unfolding p using lx ge by (simp add: nth_append)
      finally show ?thesis .
    qed
  qed
qed

section \<open>The filter of the feed\<close>











section \<open>Properties of the masonry layout\<close>

text \<open>
  Claim C7. The column count is a function of the viewport width alone: 2 below 640, 3 from
  640 and below 1024, 4 from 1024 and below 1280, 5 from 1280 on. The mount and every resize
  event store that value, whatever the count was before, so after any non-empty run of events
  the count is the one of the width of the last event.
\<close>

theorem column_count_breakpoints:
  "(width < 640 \<longrightarrow> updateColumns width = 2) \<and>
   (640 \<le> width \<and> width < 1024 \<longrightarrow> updateColumns width = 3) \<and>
   (1024 \<le> width \<and> width < 1280 \<longrightarrow> updateColumns width = 4) \<and>
   (1280 \<le> width \<longrightarrow> updateColumns width = 5) \<and>
   grid_step columns (Mount width) = updateColumns width \<and>
   grid_step columns (Resize width) = updateColumns width \<and>
   (events \<noteq> [] \<longrightarrow>
      foldl grid_step initial_columns events = updateColumns (event_width (last events)))"
proof -
  have step: "grid_step c e = updateColumns (event_width e)" for c e
    by (cases e) (simp_all add: event_width_def)
  have "foldl grid_step c es = updateColumns (event_width (last es))" if "es \<noteq> []" for c es
    using that by (induction es arbitrary: c) (auto simp: step)
  then show ?thesis
    by (simp add: updateColumns_def)
qed

theorem column_count_breakpoints_witness:
  "updateColumns 639 = 2 \<and> updateColumns 640 = 3 \<and> updateColumns 1024 = 4 \<and>
   updateColumns 1280 = 5 \<and>
   foldl grid_step initial_columns [Mount 500, Resize 1100, Resize 2000] = 5"
proof -
  have "updateColumns 639 = 2"
    using column_count_breakpoints [of 639 0 "[]"] by simp
  moreover have "updateColumns 640 = 3"
    using column_count_breakpoints [of 640 0 "[]"] by simp
  moreover have "updateColumns 1024 = 4"
    using column_count_breakpoints [of 1024 0 "[]"] by simp
  moreover have "updateColumns 1280 = 5"
    using column_count_breakpoints [of 1280 0 "[]"] by simp
  moreover have "foldl grid_step initial_columns [Mount 500, Resize 1100, Resize 2000] = 5"
    using column_count_breakpoints [of 2000 0 "[Mount 500, Resize 1100, Resize 2000]"]
    by (simp add: event_width_def)
  ultimately show ?thesis by simp
qed

text \<open>
  Claim C2. For a positive column count \<open>C\<close> (the layout engine only produces 2, 3, 4 and 5,
  and starts at 4) the distribution succeeds with \<open>C\<close> columns, and column \<open>k\<close> is the list
  of the pins at the input positions \<open>i\<close> with \<open>i mod C = k\<close>, in input order, so a column
  keeps the relative order of the input; the pin at position \<open>i\<close> is in column \<open>i mod C\<close>,
  at place \<open>i div C\<close> of that column.
\<close>

theorem distributeColumns_round_robin:
  assumes "0 < C"
  shows "\<exists>cols. distributeColumns C ps = Inr cols \<and> length cols = C \<and>
           (\<forall>k<C. cols ! k = nths ps {i. i mod C = k}) \<and>
           (\<forall>i<length ps. cols ! (i mod C) ! (i div C) = ps ! i)"
proof -
  have "distributeColumns C ps = Inr (spec_columns C ps)"
    using assms by (rule distributeColumns_spec)
  moreover have "length (spec_columns C ps) = C"
    by (simp add: spec_columns_def)
  moreover have "\<forall>k<C. spec_columns C ps ! k = nths ps {i. i mod C = k}"
    by (simp add: spec_columns_def)
  moreover have "\<forall>i<length ps. spec_columns C ps ! (i mod C) ! (i div C) = ps ! i"
    using assms by (simp add: spec_columns_position)
  ultimately show ?thesis by blast
qed

theorem distributeColumns_round_robin_witness:
  "distributeColumns 3 [10, 11, 12, 13, 14 :: nat] = Inr [[10, 13], [11, 14], [12]] \<and>
   nths [10, 11, 12, 13, 14 :: nat] {i. i mod 3 = 1} = [11, 14]"
proof -
  have pos: "0 < (3::nat)" by simp
  have run: "distributeColumns 3 [10, 11, 12, 13, 14 :: nat] = Inr [[10, 13], [11, 14], [12]]"
    by code_simp
  from distributeColumns_round_robin [OF pos, of "[10, 11, 12, 13, 14 :: nat]"]
  obtain cols where c: "distributeColumns 3 [10, 11, 12, 13, 14 :: nat] = Inr cols"
    and k: "\<forall>k<3. cols ! k = nths [10, 11, 12, 13, 14] {i. i mod 3 = k}"
    by blast
  from c run have cols: "cols = [[10, 13], [11, 14], [12]]" by simp
  from k have "cols ! 1 = nths [10, 11, 12, 13, 14 :: nat] {i. i mod 3 = 1}" by simp
  with cols have "nths [10, 11, 12, 13, 14 :: nat] {i. i mod 3 = 1} = [11, 14]" by simp
  with run show ?thesis by simp
qed

text \<open>
  Claim C10. For a positive column count the distribution is a partition of its input: the
  columns together hold every input pin as often as the input does (so a list of distinct
  pins is spread over the columns with no pin twice), the column lengths add up to the
  length of the input, and reading the columns back round-robin gives the input again.
\<close>

theorem distributeColumns_partition:
  assumes "0 < C"
  shows "\<exists>cols. distributeColumns C ps = Inr cols \<and> length cols = C \<and>
           mset (concat cols) = mset ps \<and>
           sum_list (map length cols) = length ps \<and>
           (distinct ps \<longrightarrow> distinct (concat cols)) \<and>
           interleave cols = ps"
proof -
  let ?cols = "spec_columns C ps"
  have run: "distributeColumns C ps = Inr ?cols"
    using assms by (rule distributeColumns_spec)
  have m: "mset (concat ?cols) = mset ps"
    using run by (rule distributeColumns_mset)
  have "length (concat ?cols) = length ps"
    using m by (rule mset_eq_length)
  then have l: "sum_list (map length ?cols) = length ps"
    by (simp add: length_concat)
  have d: "distinct ps \<longrightarrow> distinct (concat ?cols)"
    using mset_eq_imp_distinct_iff [OF m] by simp
  have i: "interleave ?cols = ps"
    using assms by (rule interleave_spec_columns)
  have "length ?cols = C" by (simp add: spec_columns_def)
  with run m l d i show ?thesis by blast
qed

theorem distributeColumns_partition_witness:
  "distributeColumns 2 ''abcde'' = Inr [''ace'', ''bd''] \<and> interleave [''ace'', ''bd''] = ''abcde''"
proof -
  have pos: "0 < (2::nat)" by simp
  have run: "distributeColumns 2 ''abcde'' = Inr [''ace'', ''bd'']"
    by code_simp
  from distributeColumns_partition [OF pos, of "''abcde''"] run
  have "interleave [''ace'', ''bd''] = ''abcde''" by auto
  with run show ?thesis by simp
qed

section \<open>Callbacks of the feed\<close>

lemma filter_out_position:
  assumes "distinct (map f xs)" and "j < length xs" and "f (xs ! j) = a"
  shows "filter (\<lambda>x. f x \<noteq> a) xs = take j xs @ drop (Suc j) xs"
proof -
  have split: "xs = take j xs @ xs ! j # drop (Suc j) xs"
    using assms(2) by (rule id_take_nth_drop)
  then have "distinct (map f (take j xs) @ f (xs ! j) # map f (drop (Suc j) xs))"
    using assms(1) by (metis map_append list.simps(9))
  then have "a \<notin> f ` set (take j xs)" and "a \<notin> f ` set (drop (Suc j) xs)"
    using assms(3) by auto
  then have "filter (\<lambda>x. f x \<noteq> a) (take j xs) = take j xs"
    and "filter (\<lambda>x. f x \<noteq> a) (drop (Suc j) xs) = drop (Suc j) xs"
    by (auto simp: filter_id_conv)
  moreover have "filter (\<lambda>x. f x \<noteq> a) xs
      = filter (\<lambda>x. f x \<noteq> a) (take j xs) @ filter (\<lambda>x. f x \<noteq> a) (xs ! j # drop (Suc j) xs)"
    using split by (metis filter_append)
  ultimately show ?thesis using assms(3) by simp
qed

text \<open>
  Claim C9. The like and save callbacks of the feed change only their own set of pin ids:
  the id is added when the new state is liked (saved) and removed otherwise; the pin list,
  the other set and the search query stay, and no effect (so no gateway request) is issued.
  The delete callback keeps the pins whose id differs from the given one, in their order;
  with distinct ids that removes the one position holding the id, and an id that is not in
  the list removes nothing. It leaves both sets and the query alone and issues no effect.
  Each callback is the update of its one field: every other field of the state stays.
\<close>

theorem home_callbacks:
  "likedPins (fst (Home_handleLike pinId liked s))
     = (if liked then insert pinId (likedPins s) else likedPins s - {pinId}) \<and>
   pins (fst (Home_handleLike pinId liked s)) = pins s \<and>
   savedPins (fst (Home_handleLike pinId liked s)) = savedPins s \<and>
   searchQuery (fst (Home_handleLike pinId liked s)) = searchQuery s \<and>
   snd (Home_handleLike pinId liked s) = [] \<and>
   savedPins (fst (Home_handleSave pinId saved s))
     = (if saved then insert pinId (savedPins s) else savedPins s - {pinId}) \<and>
   pins (fst (Home_handleSave pinId saved s)) = pins s \<and>
   likedPins (fst (Home_handleSave pinId saved s)) = likedPins s \<and>
   searchQuery (fst (Home_handleSave pinId saved s)) = searchQuery s \<and>
   snd (Home_handleSave pinId saved s) = [] \<and>
   pins (fst (Home_handleDelete pinId s)) = filter (\<lambda>p. id_pin p \<noteq> pinId) (pins s) \<and>
   likedPins (fst (Home_handleDelete pinId s)) = likedPins s \<and>
   savedPins (fst (Home_handleDelete pinId s)) = savedPins s \<and>
   searchQuery (fst (Home_handleDelete pinId s)) = searchQuery s \<and>
   snd (Home_handleDelete pinId s) = [] \<and>
   (distinct (map id_pin (pins s)) \<and> j < length (pins s) \<and> id_pin (pins s ! j) = pinId \<longrightarrow>
      pins (fst (Home_handleDelete pinId s)) = take j (pins s) @ drop (Suc j) (pins s)) \<and>
   (pinId \<notin> id_pin ` set (pins s) \<longrightarrow> pins (fst (Home_handleDelete pinId s)) = pins s) \<and>
   fst (Home_handleLike pinId liked s)
     = s\<lparr>likedPins := (if liked then insert pinId (likedPins s) else likedPins s - {pinId})\<rparr> \<and>
   fst (Home_handleSave pinId saved s)
     = s\<lparr>savedPins := (if saved then insert pinId (savedPins s) else savedPins s - {pinId})\<rparr> \<and>
   fst (Home_handleDelete pinId s) = s\<lparr>pins := filter (\<lambda>p. id_pin p \<noteq> pinId) (pins s)\<rparr>"
proof -
  have like: "Home_handleLike pinId liked s
      = (s\<lparr>likedPins := (if liked then insert pinId (likedPins s) else likedPins s - {pinId})\<rparr>, [])"
    by (simp add: Home_handleLike_def)
  have save: "Home_handleSave pinId saved s
      = (s\<lparr>savedPins := (if saved then insert pinId (savedPins s) else savedPins s - {pinId})\<rparr>, [])"
    by (simp add: Home_handleSave_def)
  have del: "Home_handleDelete pinId s = (s\<lparr>pins := filter (\<lambda>p. id_pin p \<noteq> pinId) (pins s)\<rparr>, [])"
    by (simp add: Home_handleDelete_def)
  have pos: "distinct (map id_pin (pins s)) \<and> j < length (pins s) \<and> id_pin (pins s ! j) = pinId \<longrightarrow>
      filter (\<lambda>p. id_pin p \<noteq> pinId) (pins s) = take j (pins s) @ drop (Suc j) (pins s)"
    using filter_out_position [of id_pin "pins s" j pinId] by blast
  have absent: "pinId \<notin> id_pin ` set (pins s) \<longrightarrow> filter (\<lambda>p. id_pin p \<noteq> pinId) (pins s) = pins s"
    by (auto simp: filter_id_conv)
  show ?thesis
    unfolding like save del using pos absent by simp
qed

theorem home_callbacks_witness:
  "pins (fst (Home_handleDelete ''p1'' (example_feed []))) = [other_pin] \<and>
   pins (fst (Home_handleDelete ''p9'' (example_feed []))) = [example_pin, other_pin]"
proof -
  have ps: "pins (example_feed []) = [example_pin, other_pin]"
    by (simp add: example_feed_def)
  have ids: "map id_pin [example_pin, other_pin] = [''p1'', ''p2'']"
    by (simp add: example_pin_def other_pin_def)
  have "distinct (map id_pin (pins (example_feed []))) \<and> 0 < length (pins (example_feed [])) \<and>
      id_pin (pins (example_feed []) ! 0) = ''p1''"
    unfolding ps ids by (simp add: example_pin_def)
  then have "pins (fst (Home_handleDelete ''p1'' (example_feed [])))
      = take 0 (pins (example_feed [])) @ drop (Suc 0) (pins (example_feed []))"
    using home_callbacks [of "''p1''" True "example_feed []" True 0] by blast
  then have one: "pins (fst (Home_handleDelete ''p1'' (example_feed []))) = [other_pin]"
    unfolding ps by simp
  have "''p9'' \<notin> id_pin ` set (pins (example_feed []))"
    unfolding ps by (simp add: example_pin_def other_pin_def)
  then have "pins (fst (Home_handleDelete ''p9'' (example_feed []))) = pins (example_feed [])"
    using home_callbacks [of "''p9''" True "example_feed []" True 0] by blast
  with one ps show ?thesis by simp
qed

section \<open>The anonymous viewer\<close>

lemma promise_all_Resolved:
  "promise_all (map (\<lambda>x. Resolved (g x)) xs) = Resolved (map g xs)"
  by (induction xs) auto

lemma map2_map_same: "map2 f xs (map g xs) = map (\<lambda>x. f x (g x)) xs"
  by (induction xs) auto

lemma fetchPins_start: "fst (snd (fetchPins gw s)) = [SelectPins]"
  by (auto simp: fetchPins_def Let_def split: outcome.splits option.splits prod.splits)

lemma fetchPins_sets:
  "likedPins (fst (fetchPins gw s)) = likedPins s \<and> savedPins (fst (fetchPins gw s)) = savedPins s \<and>
   searchQuery (fst (fetchPins gw s)) = searchQuery s \<and> loading (fst (fetchPins gw s)) = False"
  by (auto simp: fetchPins_def Let_def split: outcome.splits option.splits prod.splits)

lemma fetchPins_requests:
  "SelectLikes u \<notin> set (concat (snd (snd (fetchPins gw s)))) \<and>
   SelectSaves u \<notin> set (concat (snd (snd (fetchPins gw s))))"
  by (auto simp: fetchPins_def Let_def load_failed_def split: outcome.splits option.splits prod.splits)

lemma fetchPins_loaded:
  assumes "select_pins gw = Resolved (Some rows, None)"
    and "select_profile gw = (\<lambda>uid. Resolved (lookup uid))"
  shows "pins (fst (fetchPins gw s)) = map (\<lambda>row. row\<lparr>profiles := lookup (user_id row)\<rparr>) rows"
  using assms by (simp add: fetchPins_def promise_all_Resolved map2_map_same)

lemma mount_effect_None:
  "mount_effect None gw s
     = (fst (fetchPins gw s), fst (snd (fetchPins gw s)) @ concat (snd (snd (fetchPins gw s))))"
  by (simp add: mount_effect_def split: prod.splits)

text \<open>
  With a session the two selects that are issued before any answer arrives come first, the
  pins and then the likes.
\<close>

lemma mount_effect_session_start:
  "take 2 (snd (mount_effect (Some u) gw s)) = [SelectPins, SelectLikes u]"
  by (auto simp: mount_effect_def fetchPins_def fetchUserInteractions_def Let_def
      split: outcome.splits option.splits prod.splits)

text \<open>
  Claim C8. Without a session the like and the save handler of a card return at once: no
  effect and the same state. The mount effect of the feed then is the pin fetch alone: it
  issues no select on likes or saves, leaves both id sets as they were (empty, from the
  initial state), and starts with the select of the pins; it ends the loading state; when
  that select and the profile lookups answer, the answered pins are the pin list and, with
  an empty query, the pins handed to the grid.
\<close>

theorem anonymous_viewer:
  "PinCard_handleLike None response p st = (st, []) \<and>
   PinCard_handleSave None response p st = (st, []) \<and>
   likedPins (fst (mount_effect None gw s)) = likedPins s \<and>
   savedPins (fst (mount_effect None gw s)) = savedPins s \<and>
   likedPins (fst (mount_effect None gw home_initial)) = {} \<and>
   savedPins (fst (mount_effect None gw home_initial)) = {} \<and>
   SelectLikes u \<notin> set (snd (mount_effect None gw s)) \<and>
   SelectSaves u \<notin> set (snd (mount_effect None gw s)) \<and>
   hd (snd (mount_effect None gw s)) = SelectPins \<and>
   loading (fst (mount_effect None gw s)) = False \<and>
   (select_pins gw = Resolved (Some rows, None) \<and>
    select_profile gw = (\<lambda>uid. Resolved (lookup uid)) \<and> searchQuery s = [] \<longrightarrow>
      pins (fst (mount_effect None gw s))
        = map (\<lambda>row. row\<lparr>profiles := lookup (user_id row)\<rparr>) rows \<and>
      filteredPins (filter_effect ud (fst (mount_effect None gw s)))
        = map (\<lambda>row. row\<lparr>profiles := lookup (user_id row)\<rparr>) rows)"
proof -
  have cards: "PinCard_handleLike None response p st = (st, [])"
    "PinCard_handleSave None response p st = (st, [])"
    by (simp_all add: PinCard_handleLike_def PinCard_handleSave_def)
  have init: "likedPins home_initial = {}" "savedPins home_initial = {}"
    by (simp_all add: home_initial_def)
  have loaded: "pins (fst (fetchPins gw s)) = map (\<lambda>row. row\<lparr>profiles := lookup (user_id row)\<rparr>) rows \<and>
      filteredPins (filter_effect ud (fst (fetchPins gw s)))
        = map (\<lambda>row. row\<lparr>profiles := lookup (user_id row)\<rparr>) rows"
    if "select_pins gw = Resolved (Some rows, None)"
      and "select_profile gw = (\<lambda>uid. Resolved (lookup uid))" and "searchQuery s = []"
    using fetchPins_loaded [OF that(1,2), of s] fetchPins_sets [of gw s] that(3)
    by (simp add: filter_effect_def)
  have nolikes: "SelectLikes u \<notin> set (fst (snd (fetchPins gw s)))"
    "SelectSaves u \<notin> set (fst (snd (fetchPins gw s)))"
    by (simp_all add: fetchPins_start)
  show ?thesis
    unfolding mount_effect_None
    using cards init loaded fetchPins_sets [of gw s] fetchPins_sets [of gw home_initial]
      fetchPins_requests [of u gw s] nolikes fetchPins_start [of gw s]
    by simp
qed

theorem anonymous_viewer_witness:
  "map title
     (filteredPins (filter_effect letters_data
        (fst (mount_effect None example_home_gateway home_initial))))
     = [ascii ''Sunset Beach'', ascii ''Mountain''] \<and>
   snd (mount_effect None example_home_gateway home_initial)
     = [SelectPins, SelectProfile ''u1'', SelectProfile ''u2''] \<and>
   likedPins (fst (mount_effect None example_home_gateway home_initial)) = {}"
proof -
  have "select_pins example_home_gateway = Resolved (Some example_rows, None) \<and>
      select_profile example_home_gateway = (\<lambda>uid. Resolved (example_lookup uid)) \<and>
      searchQuery home_initial = []"
    by (simp add: example_home_gateway_def home_initial_def)
  then have "filteredPins (filter_effect letters_data
        (fst (mount_effect None example_home_gateway home_initial)))
      = map (\<lambda>row. row\<lparr>profiles := example_lookup (user_id row)\<rparr>) example_rows"
    using anonymous_viewer [of network_down example_pin example_card example_home_gateway
        home_initial "''u1''" example_rows example_lookup letters_data]
    by blast
  then have shown: "map title
      (filteredPins (filter_effect letters_data
         (fst (mount_effect None example_home_gateway home_initial))))
      = [ascii ''Sunset Beach'', ascii ''Mountain'']"
    by (simp add: example_rows_def example_pin_def other_pin_def)
  have reqs: "snd (mount_effect None example_home_gateway home_initial)
      = [SelectPins, SelectProfile ''u1'', SelectProfile ''u2'']"
    by (simp add: mount_effect_None fetchPins_def example_home_gateway_def example_rows_def
        example_pin_def other_pin_def example_lookup_def)
  have "likedPins (fst (mount_effect None example_home_gateway home_initial)) = {}"
    using anonymous_viewer [of network_down example_pin example_card example_home_gateway
        home_initial "''u1''" example_rows example_lookup letters_data]
    by blast
  with shown reqs show ?thesis by simp
qed

section \<open>Like and save on a card\<close>

text \<open>
  Claim C6. A like click by an authenticated user issues exactly one gateway operation: the
  deletion of the (user, pin) like row when the flag is set, its insertion otherwise. After
  the click the flag is the negation of its prior value and the parent's callback is told
  so, whatever the answer of the gateway; in particular an answer that reports a failure
  leaves the flag negated, nothing rolls it back. Nothing else of the card's state changes.
  The save click does the same on the saves relation.
\<close>

theorem card_click:
  "filter is_gateway (snd (PinCard_handleLike (Some u) response p st))
     = [if isLiked st then DeleteLike u (id_pin p) else InsertLike u (id_pin p)] \<and>
   isLiked (fst (PinCard_handleLike (Some u) response p st)) = (\<not> isLiked st) \<and>
   isLiked (fst (PinCard_handleLike (Some u) (Some e) p st)) = (\<not> isLiked st) \<and>
   fst (PinCard_handleLike (Some u) response p st) = st\<lparr>isLiked := \<not> isLiked st\<rparr> \<and>
   snd (PinCard_handleLike (Some u) response p st)
     = [if isLiked st then DeleteLike u (id_pin p) else InsertLike u (id_pin p),
        OnLike (id_pin p) (\<not> isLiked st)] \<and>
   filter is_gateway (snd (PinCard_handleSave (Some u) response p st))
     = [if isSaved st then DeleteSave u (id_pin p) else InsertSave u (id_pin p)] \<and>
   isSaved (fst (PinCard_handleSave (Some u) response p st)) = (\<not> isSaved st) \<and>
   isSaved (fst (PinCard_handleSave (Some u) (Some e) p st)) = (\<not> isSaved st) \<and>
   fst (PinCard_handleSave (Some u) response p st) = st\<lparr>isSaved := \<not> isSaved st\<rparr> \<and>
   snd (PinCard_handleSave (Some u) response p st)
     = [if isSaved st then DeleteSave u (id_pin p) else InsertSave u (id_pin p),
        OnSave (id_pin p) (\<not> isSaved st)]"
  by (simp add: PinCard_handleLike_def PinCard_handleSave_def is_gateway_def Let_def)

theorem card_click_witness:
  "PinCard_handleLike (Some ''u1'') (Some policy_error) example_pin example_card
     = (example_card\<lparr>isLiked := True\<rparr>, [InsertLike ''u1'' ''p1'', OnLike ''p1'' True]) \<and>
   PinCard_handleSave (Some ''u1'') network_down example_pin example_card
     = (example_card\<lparr>isSaved := False\<rparr>, [DeleteSave ''u1'' ''p1'', OnSave ''p1'' False])"
proof -
  have flags: "isLiked example_card = False" "isSaved example_card = True"
    and pid: "id_pin example_pin = ''p1''"
    by (simp_all add: example_card_def example_pin_def)
  have "fst (PinCard_handleLike (Some ''u1'') (Some policy_error) example_pin example_card)
        = example_card\<lparr>isLiked := \<not> isLiked example_card\<rparr> \<and>
      snd (PinCard_handleLike (Some ''u1'') (Some policy_error) example_pin example_card)
        = [if isLiked example_card then DeleteLike ''u1'' (id_pin example_pin)
           else InsertLike ''u1'' (id_pin example_pin),
           OnLike (id_pin example_pin) (\<not> isLiked example_card)]"
    using card_click [of "''u1''" "Some policy_error" example_pin example_card policy_error]
    by blast
  then have like: "PinCard_handleLike (Some ''u1'') (Some policy_error) example_pin example_card
      = (example_card\<lparr>isLiked := True\<rparr>, [InsertLike ''u1'' ''p1'', OnLike ''p1'' True])"
    unfolding flags pid by (simp add: prod_eq_iff)
  have "fst (PinCard_handleSave (Some ''u1'') network_down example_pin example_card)
        = example_card\<lparr>isSaved := \<not> isSaved example_card\<rparr> \<and>
      snd (PinCard_handleSave (Some ''u1'') network_down example_pin example_card)
        = [if isSaved example_card then DeleteSave ''u1'' (id_pin example_pin)
           else InsertSave ''u1'' (id_pin example_pin),
           OnSave (id_pin example_pin) (\<not> isSaved example_card)]"
    using card_click [of "''u1''" network_down example_pin example_card policy_error]
    by blast
  then have "PinCard_handleSave (Some ''u1'') network_down example_pin example_card
      = (example_card\<lparr>isSaved := False\<rparr>, [DeleteSave ''u1'' ''p1'', OnSave ''p1'' False])"
    unfolding flags pid by (simp add: prod_eq_iff)
  with like show ?thesis by simp
qed

section \<open>Choosing an image\<close>

text \<open>
  Claim C4, as stated, fails where it says that the selection is cleared: a rejected file
  leaves the state as it is, so an image chosen before stays selected. The state below is
  the one between the choice of a first image and the completion of its read, when the
  preview is still empty and the file input still on the screen.
\<close>

theorem rejected_file_counterexample:
  "imageFile (fst (handleImageUpload (Some big_image) example_create_state)) \<noteq> None"
  by (simp add: handleImageUpload_def big_image_def example_create_state_def)

text \<open>
  Claim C4, amended. A file larger than 10 MiB, or whose declared type does not start with
  \<^verbatim>\<open>image/\<close>, is rejected before any network call: one error notification is shown and the
  state is left as it was (nothing is stored and nothing is cleared). Any other file becomes
  the pending selection, a read of it is started, and the read's completion stores its
  result as the preview. In neither case is a gateway operation issued.
\<close>

theorem image_selection:
  "(file_size f > 10 * 1024 * 1024 \<or> \<not> prefix ''image/'' (file_type f) \<longrightarrow>
      fst (handleImageUpload (Some f) st) = st \<and>
      (\<exists>t d. snd (handleImageUpload (Some f) st) = [Toast t d Destructive])) \<and>
   (\<not> (file_size f > 10 * 1024 * 1024 \<or> \<not> prefix ''image/'' (file_type f)) \<longrightarrow>
      fst (handleImageUpload (Some f) st) = st\<lparr>imageFile := Some f\<rparr> \<and>
      snd (handleImageUpload (Some f) st) = [ReadAsDataURL f] \<and>
      imagePreview (reader_onload result (fst (handleImageUpload (Some f) st))) = result \<and>
      imageFile (reader_onload result (fst (handleImageUpload (Some f) st))) = Some f) \<and>
   filter is_gateway (snd (handleImageUpload (Some f) st)) = []"
  by (simp add: handleImageUpload_def reader_onload_def is_gateway_def)

theorem image_selection_witness:
  "handleImageUpload (Some big_image) example_create_state
     = (example_create_state,
        [Toast ''File too large'' ''Please choose an image smaller than 10MB'' Destructive]) \<and>
   imageFile (fst (handleImageUpload (Some small_image) (removeImage example_create_state)))
     = Some small_image \<and>
   snd (handleImageUpload (Some small_image) (removeImage example_create_state))
     = [ReadAsDataURL small_image]"
proof -
  have big: "file_size big_image > 10 * 1024 * 1024 \<or> \<not> prefix ''image/'' (file_type big_image)"
    by (simp add: big_image_def)
  have "fst (handleImageUpload (Some big_image) example_create_state) = example_create_state"
    using image_selection [of big_image example_create_state "''data:''"] big by blast
  moreover have "snd (handleImageUpload (Some big_image) example_create_state)
      = [Toast ''File too large'' ''Please choose an image smaller than 10MB'' Destructive]"
    by (simp add: handleImageUpload_def big_image_def)
  ultimately have rejected: "handleImageUpload (Some big_image) example_create_state
      = (example_create_state,
         [Toast ''File too large'' ''Please choose an image smaller than 10MB'' Destructive])"
    by (simp add: prod_eq_iff)
  have small: "\<not> (file_size small_image > 10 * 1024 * 1024 \<or>
      \<not> prefix ''image/'' (file_type small_image))"
    by (simp add: small_image_def)
  have "fst (handleImageUpload (Some small_image) (removeImage example_create_state))
        = (removeImage example_create_state)\<lparr>imageFile := Some small_image\<rparr> \<and>
      snd (handleImageUpload (Some small_image) (removeImage example_create_state))
        = [ReadAsDataURL small_image]"
    using image_selection [of small_image "removeImage example_create_state" "''data:''"] small
    by blast
  with rejected show ?thesis by simp
qed

section \<open>Submitting a pin\<close>

lemma submit_try_cases:
  "submit_try u f form now gw =
     (case call_error (upload gw (fileName u now f) f) of
        Some e \<Rightarrow> ([Upload (fileName u now f) f], Some e)
      | None \<Rightarrow>
          (case getPublicUrl gw (fileName u now f) of
             Rejected e \<Rightarrow> ([Upload (fileName u now f) f, GetPublicUrl (fileName u now f)], Some e)
           | Resolved url \<Rightarrow>
               (case call_error (insert_pin gw (pin_row u form url)) of
                  Some e \<Rightarrow>
                    ([Upload (fileName u now f) f, GetPublicUrl (fileName u now f),
                      InsertPin (pin_row u form url)], Some e)
                | None \<Rightarrow>
                    ([Upload (fileName u now f) f, GetPublicUrl (fileName u now f),
                      InsertPin (pin_row u form url), pin_created, Navigate ''/''], None))))"
  by (simp add: submit_try_def call_error_def Let_def split: outcome.splits option.splits)

lemma handleSubmit_state:
  "formData (fst (handleSubmit usr now gw st)) = formData st \<and>
   imageFile (fst (handleSubmit usr now gw st)) = imageFile st \<and>
   imagePreview (fst (handleSubmit usr now gw st)) = imagePreview st"
  by (simp add: handleSubmit_def split: option.splits prod.splits)

lemma handleSubmit_effects:
  assumes "imageFile st = Some f"
  shows "snd (handleSubmit (Some u) now gw st) =
     (case submit_try u f (formData st) now gw of
        (es, None) \<Rightarrow> es
      | (es, Some e) \<Rightarrow> es @ [error_toast e])"
  using assms by (simp add: handleSubmit_def error_toast_def split: option.splits prod.splits)

text \<open>
  Claim C5. With a user and a selected image, \<^verbatim>\<open>handleSubmit\<close> uploads the image under
  \<open>user id/timestamp.extension\<close>, then resolves the public URL of that path, then parses
  the tags and inserts the row that carries the URL and the parsed tags, in this order. A
  step that fails (by throwing, or by the error of its result) ends the sequence: the
  effects are the steps up to the failing one followed by one notification, whose text is
  the message of the error (the fixed text stands in only for a missing or empty message).
  The notification of success and the navigation to \<open>/\<close> follow only the insert that
  succeeded, and navigation happens in no other case. The form data, the selected image and
  the preview are the same after the handler in every case.
\<close>

theorem submit_sequence:
  assumes "imageFile st = Some f"
    and "path = fileName u now f"
    and "R = handleSubmit (Some u) now gw st"
  shows
   "(call_error (upload gw path f) = Some e \<longrightarrow> snd R = [Upload path f, error_toast e]) \<and>
    (call_error (upload gw path f) = None \<and> getPublicUrl gw path = Rejected e \<longrightarrow>
       snd R = [Upload path f, GetPublicUrl path, error_toast e]) \<and>
    (call_error (upload gw path f) = None \<and> getPublicUrl gw path = Resolved url \<and>
     call_error (insert_pin gw (pin_row u (formData st) url)) = Some e \<longrightarrow>
       snd R = [Upload path f, GetPublicUrl path, InsertPin (pin_row u (formData st) url),
                error_toast e]) \<and>
    (call_error (upload gw path f) = None \<and> getPublicUrl gw path = Resolved url \<and>
     call_error (insert_pin gw (pin_row u (formData st) url)) = None \<longrightarrow>
       snd R = [Upload path f, GetPublicUrl path, InsertPin (pin_row u (formData st) url),
                pin_created, Navigate ''/'']) \<and>
    (Navigate ''/'' \<in> set (snd R) \<longleftrightarrow>
       call_error (upload gw path f) = None \<and>
       (\<exists>url'. getPublicUrl gw path = Resolved url' \<and>
          call_error (insert_pin gw (pin_row u (formData st) url')) = None)) \<and>
    formData (fst R) = formData st \<and> imageFile (fst R) = imageFile st \<and>
    imagePreview (fst R) = imagePreview st \<and>
    (message e = Some m \<and> m \<noteq> [] \<longrightarrow> error_toast e = Toast ''Error creating pin'' m Destructive) \<and>
    prefix (u @ ''/'' @ digits now) path \<and>
    ins_image_url (pin_row u (formData st) url) = url \<and>
    ins_tags (pin_row u (formData st) url) = parseTags (form_tags (formData st))"
proof -
  have eff: "snd R =
     (case submit_try u f (formData st) now gw of
        (es, None) \<Rightarrow> es
      | (es, Some e) \<Rightarrow> es @ [error_toast e])"
    unfolding assms(3) using assms(1) by (rule handleSubmit_effects)
  have c1: "call_error (upload gw path f) = Some e \<longrightarrow> snd R = [Upload path f, error_toast e]"
    unfolding eff submit_try_cases assms(2) by simp
  have c2: "call_error (upload gw path f) = None \<and> getPublicUrl gw path = Rejected e \<longrightarrow>
       snd R = [Upload path f, GetPublicUrl path, error_toast e]"
    unfolding eff submit_try_cases assms(2) by simp
  have c3: "call_error (upload gw path f) = None \<and> getPublicUrl gw path = Resolved url \<and>
     call_error (insert_pin gw (pin_row u (formData st) url)) = Some e \<longrightarrow>
       snd R = [Upload path f, GetPublicUrl path, InsertPin (pin_row u (formData st) url),
                error_toast e]"
    unfolding eff submit_try_cases assms(2) by simp
  have c4: "call_error (upload gw path f) = None \<and> getPublicUrl gw path = Resolved url \<and>
     call_error (insert_pin gw (pin_row u (formData st) url)) = None \<longrightarrow>
       snd R = [Upload path f, GetPublicUrl path, InsertPin (pin_row u (formData st) url),
                pin_created, Navigate ''/'']"
    unfolding eff submit_try_cases assms(2) by simp
  have nav: "Navigate ''/'' \<in> set (snd R) \<longleftrightarrow>
       call_error (upload gw path f) = None \<and>
       (\<exists>url'. getPublicUrl gw path = Resolved url' \<and>
          call_error (insert_pin gw (pin_row u (formData st) url')) = None)"
    unfolding eff submit_try_cases assms(2)
    by (auto simp: error_toast_def pin_created_def split: option.splits outcome.splits)
  have frame: "formData (fst R) = formData st \<and> imageFile (fst R) = imageFile st \<and>
      imagePreview (fst R) = imagePreview st"
    unfolding assms(3) by (rule handleSubmit_state)
  have msg: "message e = Some m \<and> m \<noteq> [] \<longrightarrow> error_toast e = Toast ''Error creating pin'' m Destructive"
    by (simp add: error_toast_def surfaced_def)
  have pre: "prefix (u @ ''/'' @ digits now) path"
    unfolding assms(2) fileName_def Let_def by (simp add: prefix_def)
  have row: "ins_image_url (pin_row u (formData st) url) = url \<and>
      ins_tags (pin_row u (formData st) url) = parseTags (form_tags (formData st))"
    by (simp add: pin_row_def)
  from c1 c2 c3 c4 nav frame msg pre row show ?thesis by blast
qed

lemma example_path: "fileName ''u1'' 1730000000123 small_image = ''u1/1730000000123.png''"
  by (simp add: fileName_def small_image_def digits.simps char_of_def bit_Suc_0_iff)

lemma isWhiteSpace_space: "isWhiteSpace CHR '' ''"
  by (simp add: isWhiteSpace_def)

lemma example_tags: "parseTags ''food, , recipe'' = [''food'', ''recipe'']"
  by (simp add: parseTags_def trim_def isWhiteSpace_def)

lemma example_row:
  "pin_row ''u1'' (formData example_create_state) url
     = \<lparr>ins_user_id = ''u1'', ins_title = ''Dinner'', ins_description = None,
        ins_image_url = url, ins_tags = [''food'', ''recipe'']\<rparr>"
  by (simp add: pin_row_def example_create_state_def example_tags)

theorem submit_sequence_witness:
  "snd (handleSubmit (Some ''u1'') 1730000000123 ok_gateway example_create_state)
     = [Upload ''u1/1730000000123.png'' small_image, GetPublicUrl ''u1/1730000000123.png'',
        InsertPin \<lparr>ins_user_id = ''u1'', ins_title = ''Dinner'', ins_description = None,
          ins_image_url = ''https://cdn/u1/1730000000123.png'',
          ins_tags = [''food'', ''recipe'']\<rparr>,
        pin_created, Navigate ''/''] \<and>
   snd (handleSubmit (Some ''u1'') 1730000000123 refusing_gateway example_create_state)
     = [Upload ''u1/1730000000123.png'' small_image, GetPublicUrl ''u1/1730000000123.png'',
        InsertPin \<lparr>ins_user_id = ''u1'', ins_title = ''Dinner'', ins_description = None,
          ins_image_url = ''https://cdn/u1/1730000000123.png'',
          ins_tags = [''food'', ''recipe'']\<rparr>,
        Toast ''Error creating pin'' ''violates row-level security policy'' Destructive] \<and>
   formData (fst (handleSubmit (Some ''u1'') 1730000000123 refusing_gateway example_create_state))
     = formData example_create_state"
proof -
  let ?path = "fileName ''u1'' 1730000000123 small_image"
  let ?url = "''https://cdn/u1/1730000000123.png''"
  let ?row = "pin_row ''u1'' (formData example_create_state) ?url"
  have img: "imageFile example_create_state = Some small_image"
    by (simp add: example_create_state_def)
  have ok: "call_error (upload ok_gateway ?path small_image) = None \<and>
      getPublicUrl ok_gateway ?path = Resolved ?url \<and>
      call_error (insert_pin ok_gateway ?row) = None"
    by (simp add: ok_gateway_def call_error_def example_path)
  have refused: "call_error (upload refusing_gateway ?path small_image) = None \<and>
      getPublicUrl refusing_gateway ?path = Resolved ?url \<and>
      call_error (insert_pin refusing_gateway ?row) = Some policy_error"
    by (simp add: refusing_gateway_def ok_gateway_def call_error_def example_path)
  have msg: "message policy_error = Some ''violates row-level security policy'' \<and>
      ''violates row-level security policy'' \<noteq> []"
    by (simp add: policy_error_def)
  have "snd (handleSubmit (Some ''u1'') 1730000000123 ok_gateway example_create_state)
      = [Upload ?path small_image, GetPublicUrl ?path, InsertPin ?row, pin_created, Navigate ''/'']"
    using submit_sequence [where st = example_create_state and f = small_image and u = "''u1''"
        and now = 1730000000123 and gw = ok_gateway and e = policy_error and url = ?url
        and m = "''violates row-level security policy''", OF img refl refl] ok
    by blast
  then have first: "snd (handleSubmit (Some ''u1'') 1730000000123 ok_gateway example_create_state)
      = [Upload ''u1/1730000000123.png'' small_image, GetPublicUrl ''u1/1730000000123.png'',
        InsertPin \<lparr>ins_user_id = ''u1'', ins_title = ''Dinner'', ins_description = None,
          ins_image_url = ''https://cdn/u1/1730000000123.png'',
          ins_tags = [''food'', ''recipe'']\<rparr>,
        pin_created, Navigate ''/'']"
    unfolding example_path example_row .
  have "snd (handleSubmit (Some ''u1'') 1730000000123 refusing_gateway example_create_state)
        = [Upload ?path small_image, GetPublicUrl ?path, InsertPin ?row, error_toast policy_error] \<and>
      error_toast policy_error
        = Toast ''Error creating pin'' ''violates row-level security policy'' Destructive \<and>
      formData (fst (handleSubmit (Some ''u1'') 1730000000123 refusing_gateway example_create_state))
        = formData example_create_state"
    using submit_sequence [where st = example_create_state and f = small_image and u = "''u1''"
        and now = 1730000000123 and gw = refusing_gateway and e = policy_error and url = ?url
        and m = "''violates row-level security policy''", OF img refl refl] refused msg
    by blast
  then have "snd (handleSubmit (Some ''u1'') 1730000000123 refusing_gateway example_create_state)
        = [Upload ''u1/1730000000123.png'' small_image, GetPublicUrl ''u1/1730000000123.png'',
        InsertPin \<lparr>ins_user_id = ''u1'', ins_title = ''Dinner'', ins_description = None,
          ins_image_url = ''https://cdn/u1/1730000000123.png'',
          ins_tags = [''food'', ''recipe'']\<rparr>,
        Toast ''Error creating pin'' ''violates row-level security policy'' Destructive] \<and>
      formData (fst (handleSubmit (Some ''u1'') 1730000000123 refusing_gateway example_create_state))
        = formData example_create_state"
    unfolding example_path example_row by simp
  with first show ?thesis by simp
qed

section \<open>Splitting and trimming\<close>

lemma split_str_nonempty: "split_str sep s \<noteq> []"
  by (induction s) (auto split: list.splits)

lemma split_str_no_sep: "sep \<notin> set (concat (split_str sep s))"
  by (induction s) (auto split: list.splits)

lemma join_split_str: "join_str sep (split_str sep s) = s"
proof (induction s)
  case Nil
  then show ?case by simp
next
  case (Cons c s)
  obtain p ps where sp: "split_str sep s = p # ps"
    using split_str_nonempty [of sep s] by (cases "split_str sep s") auto
  show ?case
  proof (cases "c = sep")
    case True
    with Cons sp show ?thesis by simp
  next
    case False
    with Cons sp show ?thesis by (cases ps) auto
  qed
qed

lemma split_str_piece: "sep \<notin> set p \<Longrightarrow> split_str sep p = [p]"
  by (induction p) auto

lemma split_str_append: "sep \<notin> set p \<Longrightarrow> split_str sep (p @ sep # r) = p # split_str sep r"
  by (induction p) auto

lemma split_join_str:
  "ps \<noteq> [] \<Longrightarrow> sep \<notin> set (concat ps) \<Longrightarrow> split_str sep (join_str sep ps) = ps"
proof (induction ps rule: join_str.induct)
  case (1 sep)
  then show ?case by simp
next
  case (2 sep p)
  then show ?case by (simp add: split_str_piece)
next
  case (3 sep p q ps)
  then show ?case by (simp add: split_str_append)
qed

lemma comma_pieces_iff: "comma_pieces s ps \<longleftrightarrow> ps = split_str CHR '','' s"
  unfolding comma_pieces_def
  using split_str_nonempty split_str_no_sep join_split_str split_join_str by metis

lemma trimmed_of_trim: "trimmed_of p (trim p)"
proof -
  define a where "a = takeWhile isWhiteSpace p"
  define r where "r = dropWhile isWhiteSpace p"
  define b where "b = rev (takeWhile isWhiteSpace (rev r))"
  have t: "trim p = rev (dropWhile isWhiteSpace (rev r))"
    by (simp add: trim_def r_def)
  have "rev r = takeWhile isWhiteSpace (rev r) @ dropWhile isWhiteSpace (rev r)"
    by simp
  then have "rev (rev r) = rev (takeWhile isWhiteSpace (rev r) @ dropWhile isWhiteSpace (rev r))"
    by (rule arg_cong)
  then have r: "r = trim p @ b"
    unfolding t b_def by (simp only: rev_rev_ident rev_append)
  have "p = a @ r"
    by (simp add: a_def r_def)
  then have p: "p = a @ trim p @ b"
    using r by simp
  have wa: "list_all isWhiteSpace a"
    unfolding a_def list_all_iff using set_takeWhileD by fast
  have wb: "list_all isWhiteSpace b"
    unfolding b_def list_all_iff using set_takeWhileD by fastforce
  have ends: "\<not> isWhiteSpace (hd (trim p)) \<and> \<not> isWhiteSpace (last (trim p))" if ne: "trim p \<noteq> []"
  proof
    from ne have "r \<noteq> []" using r by auto
    then have "\<not> isWhiteSpace (hd r)"
      unfolding r_def by (rule hd_dropWhile)
    moreover have "hd r = hd (trim p)" using r ne by simp
    ultimately show "\<not> isWhiteSpace (hd (trim p))" by simp
    from ne have d: "dropWhile isWhiteSpace (rev r) \<noteq> []" using t by simp
    then have "\<not> isWhiteSpace (hd (dropWhile isWhiteSpace (rev r)))"
      by (rule hd_dropWhile)
    moreover have "last (trim p) = hd (dropWhile isWhiteSpace (rev r))"
      unfolding t using d by (simp add: last_rev)
    ultimately show "\<not> isWhiteSpace (last (trim p))" by simp
  qed
  show ?thesis
    unfolding trimmed_of_def using p wa wb ends by blast
qed

lemma dropWhile_all: "list_all P xs \<Longrightarrow> dropWhile P (xs @ ys) = dropWhile P ys"
  by (induction xs) auto

lemma trimmed_of_unique:
  assumes "trimmed_of p t"
  shows "t = trim p"
proof -
  from assms obtain a b where p: "p = a @ t @ b" and wa: "list_all isWhiteSpace a"
    and wb: "list_all isWhiteSpace b"
    and ends: "t = [] \<or> (\<not> isWhiteSpace (hd t) \<and> \<not> isWhiteSpace (last t))"
    unfolding trimmed_of_def by blast
  have wrb: "list_all isWhiteSpace (rev b)" using wb by (simp add: list_all_iff)
  show ?thesis
  proof (cases "t = []")
    case True
    have "dropWhile isWhiteSpace p = dropWhile isWhiteSpace b"
      using wa True p by (simp add: dropWhile_all)
    also have "\<dots> = []" using wb by (simp add: list_all_iff)
    finally have e: "dropWhile isWhiteSpace p = []" .
    show ?thesis unfolding trim_def e using True by simp
  next
    case False
    with ends have h: "\<not> isWhiteSpace (hd t)" and l: "\<not> isWhiteSpace (last t)" by auto
    have "dropWhile isWhiteSpace p = dropWhile isWhiteSpace (t @ b)"
      using wa p by (simp add: dropWhile_all)
    also have "\<dots> = t @ b"
      using False h by (cases t) auto
    finally have "rev (dropWhile isWhiteSpace p) = rev b @ rev t" by simp
    then have "dropWhile isWhiteSpace (rev (dropWhile isWhiteSpace p)) = dropWhile isWhiteSpace (rev t)"
      using wrb by (simp add: dropWhile_all)
    also have "\<dots> = rev t"
      using False l by (cases "rev t") (auto simp: last_rev [symmetric] hd_rev)
    finally show ?thesis by (simp add: trim_def)
  qed
qed

lemma trimmed_pieces: "list_all2 trimmed_of ps ts \<longleftrightarrow> ts = map trim ps"
proof
  assume "list_all2 trimmed_of ps ts"
  then show "ts = map trim ps"
    by (induction rule: list_all2_induct) (auto dest: trimmed_of_unique)
next
  assume "ts = map trim ps"
  then show "list_all2 trimmed_of ps ts"
    by (simp add: list_all2_map2 list_all2_same trimmed_of_trim)
qed

lemma handleSubmit_inserts:
  assumes "InsertPin row \<in> set (snd (handleSubmit usr now gw st))"
  shows "\<exists>u url. row = pin_row u (formData st) url"
  using assms
  by (auto simp: handleSubmit_def submit_try_def Let_def pin_created_def
      split: option.splits outcome.splits prod.splits if_splits)

text \<open>
  Claim C3. The tag list of a row that \<^verbatim>\<open>handleSubmit\<close> inserts is the result of splitting
  the tags field on commas, trimming each piece and dropping the empty results: the field
  has a division into comma-free pieces joined by commas, each piece has a trimmed form,
  and the stored list is the list of the non-empty trimmed forms, for any such division
  and trimming (there is only one).
\<close>

theorem created_pin_tags:
  assumes "InsertPin row \<in> set (snd (handleSubmit usr now gw st))"
  shows "(\<exists>ps ts. comma_pieces (form_tags (formData st)) ps \<and> list_all2 trimmed_of ps ts \<and>
            ins_tags row = filter (\<lambda>t. t \<noteq> []) ts) \<and>
         (\<forall>ps ts. comma_pieces (form_tags (formData st)) ps \<and> list_all2 trimmed_of ps ts \<longrightarrow>
            ins_tags row = filter (\<lambda>t. t \<noteq> []) ts)"
proof -
  from handleSubmit_inserts [OF assms] obtain u url where "row = pin_row u (formData st) url"
    by blast
  then have "ins_tags row = parseTags (form_tags (formData st))"
    by (simp add: pin_row_def)
  then have tags: "ins_tags row
      = filter (\<lambda>t. t \<noteq> []) (map trim (split_str CHR '','' (form_tags (formData st))))"
    by (simp add: parseTags_def)
  show ?thesis
    unfolding comma_pieces_iff trimmed_pieces using tags by simp
qed

theorem created_pin_tags_witness:
  "(\<exists>row. InsertPin row
       \<in> set (snd (handleSubmit (Some ''u1'') 1730000000123 ok_gateway example_create_state)) \<and>
     ins_tags row = [''food'', ''recipe'']) \<and>
   form_tags (formData example_create_state) = ''food, , recipe'' \<and>
   (\<exists>ps ts. comma_pieces ''food, , recipe'' ps \<and> list_all2 trimmed_of ps ts \<and>
      [''food'', ''recipe''] = filter (\<lambda>t. t \<noteq> []) ts)"
proof -
  let ?row = "pin_row ''u1'' (formData example_create_state) ''https://cdn/u1/1730000000123.png''"
  have inserted: "InsertPin ?row
      \<in> set (snd (handleSubmit (Some ''u1'') 1730000000123 ok_gateway example_create_state))"
    by (simp add: handleSubmit_def submit_try_def Let_def example_path ok_gateway_def
        example_create_state_def)
  have tags: "ins_tags ?row = [''food'', ''recipe'']"
    by (simp add: example_row)
  have field: "form_tags (formData example_create_state) = ''food, , recipe''"
    by (simp add: example_create_state_def)
  from created_pin_tags [OF inserted]
  have "\<exists>ps ts. comma_pieces ''food, , recipe'' ps \<and> list_all2 trimmed_of ps ts \<and>
      [''food'', ''recipe''] = filter (\<lambda>t. t \<noteq> []) ts"
    unfolding tags field by blast
  with inserted tags field show ?thesis by blast
qed

end
